theory Spec2Isabelle
  imports Main
begin

section \<open>Go strings: bytes and runes\<close>

text \<open>
  A Go string is a sequence of bytes, here a \<open>string\<close> (a list of 8-bit characters).
  A rune is a Unicode code point (Go's \<open>int32\<close>), here an integer. The package \<open>names\<close> mixes
  byte-indexed functions (package \<open>strings\<close>, package \<open>strcase\<close>) with the rune-indexed
  matcher of package \<open>regexp2\<close>, so both views are modelled.
\<close>

type_synonym rune = int

definition byte :: "char \<Rightarrow> int" where
  "byte c = of_char c"

definition isCap :: "char \<Rightarrow> bool" where
  "isCap c \<longleftrightarrow> 65 \<le> byte c \<and> byte c \<le> 90"

definition isLow :: "char \<Rightarrow> bool" where
  "isLow c \<longleftrightarrow> 97 \<le> byte c \<and> byte c \<le> 122"

definition isNum :: "char \<Rightarrow> bool" where
  "isNum c \<longleftrightarrow> 48 \<le> byte c \<and> byte c \<le> 57"

definition toUpperByte :: "char \<Rightarrow> char" where
  \<comment> \<open>\<open>v += 'A'; v -= 'a'\<close> on a lower-case letter\<close>
  "toUpperByte c = char_of (byte c - 32)"

definition toLowerByte :: "char \<Rightarrow> char" where
  \<comment> \<open>\<open>v += 'a'; v -= 'A'\<close> on an upper-case letter\<close>
  "toLowerByte c = char_of (byte c + 32)"

definition cont :: "char \<Rightarrow> bool" where
  \<comment> \<open>a UTF-8 continuation byte, 0x80..0xBF\<close>
  "cont c \<longleftrightarrow> 128 \<le> byte c \<and> byte c \<le> 191"

definition RuneError :: rune where
  "RuneError = 65533"

text \<open>
  \<open>utf8.DecodeRuneInString\<close> on a non-empty string whose first byte is \<open>c0\<close>: the rune
  and its width in bytes. An invalid or truncated encoding is \<open>RuneError\<close> of width 1, as
  in \<open>for i, r := range s\<close> and \<open>[]rune(s)\<close>.
\<close>

definition DecodeRune :: "char \<Rightarrow> string \<Rightarrow> rune \<times> nat" where
  "DecodeRune c0 rest =
     (let b0 = byte c0 in
      if b0 < 128 then (b0, 1)
      else if 194 \<le> b0 \<and> b0 \<le> 223 then
        (case rest of
           c1 # _ \<Rightarrow> if cont c1 then ((b0 - 192) * 64 + (byte c1 - 128), 2) else (RuneError, 1)
         | _ \<Rightarrow> (RuneError, 1))
      else if 224 \<le> b0 \<and> b0 \<le> 239 then
        (case rest of
           c1 # c2 # _ \<Rightarrow>
             if (if b0 = 224 then 160 else 128) \<le> byte c1
                \<and> byte c1 \<le> (if b0 = 237 then 159 else 191) \<and> cont c2
             then ((b0 - 224) * 4096 + (byte c1 - 128) * 64 + (byte c2 - 128), 3)
             else (RuneError, 1)
         | _ \<Rightarrow> (RuneError, 1))
      else if 240 \<le> b0 \<and> b0 \<le> 244 then
        (case rest of
           c1 # c2 # c3 # _ \<Rightarrow>
             if (if b0 = 240 then 144 else 128) \<le> byte c1
                \<and> byte c1 \<le> (if b0 = 244 then 143 else 191) \<and> cont c2 \<and> cont c3
             then ((b0 - 240) * 262144 + (byte c1 - 128) * 4096
                   + (byte c2 - 128) * 64 + (byte c3 - 128), 4)
             else (RuneError, 1)
         | _ \<Rightarrow> (RuneError, 1))
      else (RuneError, 1))"

text \<open>The runes of a string with the width of each, in order.\<close>

fun decode :: "string \<Rightarrow> (rune \<times> nat) list" where
  "decode [] = []"
| "decode (c # cs) =
     (let rw = DecodeRune c cs in rw # decode (drop (snd rw - 1) cs))"

definition getRunes :: "string \<Rightarrow> rune list" where
  \<comment> \<open>\<open>[]rune(s)\<close>\<close>
  "getRunes s = map fst (decode s)"

text \<open>\<open>string(r)\<close> for one rune: its UTF-8 encoding, \<open>RuneError\<close> for an invalid rune.\<close>

definition EncodeRune :: "rune \<Rightarrow> string" where
  "EncodeRune r =
     (if r < 128 then [char_of r]
      else if r < 2048 then [char_of (192 + r div 64), char_of (128 + r mod 64)]
      else if (55296 \<le> r \<and> r \<le> 57343) \<or> 1114111 < r then
        [char_of (239::int), char_of (191::int), char_of (189::int)]
      else if r < 65536 then
        [char_of (224 + r div 4096), char_of (128 + (r div 64) mod 64), char_of (128 + r mod 64)]
      else
        [char_of (240 + r div 262144), char_of (128 + (r div 4096) mod 64),
         char_of (128 + (r div 64) mod 64), char_of (128 + r mod 64)])"

definition EncodeRunes :: "rune list \<Rightarrow> string" where
  \<comment> \<open>\<open>string(rs)\<close>\<close>
  "EncodeRunes rs = concat (map EncodeRune rs)"

section \<open>Package strings\<close>

fun HasPrefix :: "'a list \<Rightarrow> 'a list \<Rightarrow> bool" where
  "HasPrefix s [] = True"
| "HasPrefix [] (p # ps) = False"
| "HasPrefix (c # s) (p # ps) = (c = p \<and> HasPrefix s ps)"

text \<open>\<open>strings.Index(s, sub)\<close>: the byte index of the first occurrence, \<open>None\<close> for -1.\<close>

fun StrIndex :: "string \<Rightarrow> string \<Rightarrow> nat option" where
  "StrIndex [] sub = (if sub = [] then Some 0 else None)"
| "StrIndex (c # s) sub =
     (if HasPrefix (c # s) sub then Some 0 else map_option Suc (StrIndex s sub))"

text \<open>
  \<open>strings.Replace(s, old, new, n)\<close> for a non-empty \<open>old\<close>: the first \<open>n\<close> non-overlapping
  occurrences from the left, all of them when \<open>n < 0\<close>. Every \<open>old\<close> the package passes
  is a non-empty constant; for an empty \<open>old\<close> (where Go inserts \<open>new\<close> between runes) the
  model returns \<open>s\<close>.
\<close>

function StrReplace :: "string \<Rightarrow> string \<Rightarrow> string \<Rightarrow> int \<Rightarrow> string" where
  "StrReplace s old new n =
     (if n = 0 \<or> old = [] then s
      else case s of
        [] \<Rightarrow> []
      | c # cs \<Rightarrow>
          if HasPrefix s old then new @ StrReplace (drop (length old) s) old new (n - 1)
          else c # StrReplace cs old new n)"
  by pat_completeness auto
termination
  by (relation "measure (\<lambda>(s, old, new, n). length s)") auto

declare StrReplace.simps [simp del]

definition Trim :: "string \<Rightarrow> string \<Rightarrow> string" where
  \<comment> \<open>\<open>strings.Trim(s, cutset)\<close> for a cutset of ASCII bytes\<close>
  "Trim s cutset =
     rev (dropWhile (\<lambda>c. c \<in> set cutset) (rev (dropWhile (\<lambda>c. c \<in> set cutset) s)))"

definition ToLower :: "string \<Rightarrow> string" where
  \<comment> \<open>\<open>strings.ToLower\<close> on the ASCII letters; other bytes are kept\<close>
  "ToLower s = map (\<lambda>c. if isCap c then toLowerByte c else c) s"

text \<open>
  \<open>unicode.IsSpace\<close>: the white space runes of Unicode.
\<close>

definition IsSpace :: "rune \<Rightarrow> bool" where
  "IsSpace r \<longleftrightarrow>
     (9 \<le> r \<and> r \<le> 13) \<or> r = 32 \<or> r = 133 \<or> r = 160 \<or> r = 5760
     \<or> (8192 \<le> r \<and> r \<le> 8202) \<or> r = 8232 \<or> r = 8233 \<or> r = 8239 \<or> r = 8287 \<or> r = 12288"

text \<open>The bytes of a string cut into its runes.\<close>

fun chunks :: "string \<Rightarrow> (rune \<times> string) list" where
  "chunks [] = []"
| "chunks (c # cs) =
     (let rw = DecodeRune c cs
      in (fst rw, c # take (snd rw - 1) cs) # chunks (drop (snd rw - 1) cs))"

definition TrimSpace :: "string \<Rightarrow> string" where
  "TrimSpace s =
     concat (map snd
       (rev (dropWhile (\<lambda>p. IsSpace (fst p))
          (rev (dropWhile (\<lambda>p. IsSpace (fst p)) (chunks s))))))"

section \<open>Package regexp2: the patterns of the rule table\<close>

text \<open>
  Modelled from the spec: the context-sensitive matcher of section 3 and section 4.2 is a
  compiled pattern of the imported package \<open>regexp2\<close>, whose source is not among the
  files of the repository. The definitions follow that package: a backtracking matcher
  over the runes of the string, whose matches carry rune indices, and whose \<open>Replace\<close>
  takes its \<open>startAt\<close> as a byte offset into the string. The patterns of the rule table
  use literals, a case-insensitive literal \<open>(?i)\<close>, character sets and ranges,
  concatenation, alternation and negative lookahead \<open>(?!...)\<close>; no repetition and no
  look-behind.
\<close>

datatype regex =
    Lit string
  | LitI string
  | OneOf string
  | Range char char
  | Seq regex regex
  | Alt regex regex
  | NotAhead regex

definition rune_ToLower :: "rune \<Rightarrow> rune" where
  \<comment> \<open>\<open>unicode.ToLower\<close> on the letters that the one case-insensitive literal, \<open>ttl\<close>,
      can meet: no rune outside ASCII has \<open>t\<close> or \<open>l\<close> as its lower case\<close>
  "rune_ToLower r = (if 65 \<le> r \<and> r \<le> 90 then r + 32 else r)"

text \<open>
  \<open>rx_match re t\<close>: the lengths of the matches of \<open>re\<close> at the start of the runes \<open>t\<close>, in
  the order in which backtracking tries them. The first one is the match that the
  matcher reports at this position.
\<close>

fun rx_match :: "regex \<Rightarrow> rune list \<Rightarrow> nat list" where
  "rx_match (Lit cs) t = (if HasPrefix t (map byte cs) then [length cs] else [])"
| "rx_match (LitI cs) t =
     (if HasPrefix (map rune_ToLower (take (length cs) t)) (map byte cs)
      then [length cs] else [])"
| "rx_match (OneOf cs) t =
     (case t of [] \<Rightarrow> [] | r # _ \<Rightarrow> if r \<in> set (map byte cs) then [1] else [])"
| "rx_match (Range lo hi) t =
     (case t of [] \<Rightarrow> [] | r # _ \<Rightarrow> if byte lo \<le> r \<and> r \<le> byte hi then [1] else [])"
| "rx_match (Seq a b) t =
     concat (map (\<lambda>n. map (\<lambda>m. n + m) (rx_match b (drop n t))) (rx_match a t))"
| "rx_match (Alt a b) t = rx_match a t @ rx_match b t"
| "rx_match (NotAhead a) t = (if rx_match a t = [] then [0] else [])"

lemma HasPrefix_length: "HasPrefix s p \<Longrightarrow> length p \<le> length s"
  by (induction s p rule: HasPrefix.induct) auto

lemma rx_match_le_length: "n \<in> set (rx_match re t) \<Longrightarrow> n \<le> length t"
proof (induction re arbitrary: n t)
  case (Lit cs)
  then show ?case
    using HasPrefix_length [of t "map byte cs"] by (auto split: if_splits)
next
  case (LitI cs)
  then show ?case
    using HasPrefix_length [of "map rune_ToLower (take (length cs) t)" "map byte cs"]
    by (auto split: if_splits)
next
  case (Seq a b)
  then obtain k m where k: "k \<in> set (rx_match a t)"
    and m: "m \<in> set (rx_match b (drop k t))" and n: "n = k + m"
    by auto
  have "k \<le> length t" using Seq.IH(1) k .
  moreover have "m \<le> length t - k" using Seq.IH(2) [OF m] by simp
  ultimately show ?case using n by simp
qed (auto split: list.splits if_splits)

text \<open>
  A match: the runes searched, and the rune index and length of the capture
  (\<open>match.Group.Capture.Index\<close>, \<open>Length\<close>).
\<close>

record Match =
  mtext :: "rune list"
  Index :: nat
  Length :: nat

text \<open>The leftmost match in the runes \<open>t\<close>, which start at rune index \<open>i\<close> of the text.\<close>

fun rx_find :: "regex \<Rightarrow> rune list \<Rightarrow> nat \<Rightarrow> (nat \<times> nat) option" where
  "rx_find re [] i = (case rx_match re [] of [] \<Rightarrow> None | n # _ \<Rightarrow> Some (i, n))"
| "rx_find re (r # rs) i =
     (case rx_match re (r # rs) of [] \<Rightarrow> rx_find re rs (Suc i) | n # _ \<Rightarrow> Some (i, n))"

definition run :: "regex \<Rightarrow> nat \<Rightarrow> rune list \<Rightarrow> Match option" where
  \<comment> \<open>\<open>re.run(false, startAt, runes)\<close>\<close>
  "run re startAt rs =
     (if length rs < startAt then None
      else map_option (\<lambda>(i, n). \<lparr>mtext = rs, Index = i, Length = n\<rparr>)
             (rx_find re (drop startAt rs) startAt))"

definition FindStringMatch :: "regex \<Rightarrow> string \<Rightarrow> Match option" where
  \<comment> \<open>its error is the match timeout, which the package does not set\<close>
  "FindStringMatch re s = run re 0 (getRunes s)"

definition FindNextMatch :: "regex \<Rightarrow> Match \<Rightarrow> Match option" where
  \<comment> \<open>the search goes on in the text of \<open>m\<close> after its end; past an empty match it moves
      on by one rune\<close>
  "FindNextMatch re m =
     (let textpos = Index m + Length m in
      if Length m = 0 then
        (if textpos = length (mtext m) then None else run re (textpos + 1) (mtext m))
      else run re textpos (mtext m))"

datatype error =
    CountTooSmall
  | StartAtTooLarge
  | StartAtNotAligned

text \<open>
  \<open>getRunesAndStart(s, startAt)\<close> for \<open>startAt \<ge> 0\<close>: \<open>startAt\<close> is a byte offset into \<open>s\<close>;
  the result is the rune index of the rune that starts there, \<open>None\<close> (-1) when no rune
  starts at that byte. \<open>runeIndexAt ws strIdx i startAt\<close> is the loop over the runes,
  \<open>ws\<close> their widths, \<open>strIdx\<close> the byte offset and \<open>i\<close> the rune index reached.
\<close>

fun runeIndexAt :: "(rune \<times> nat) list \<Rightarrow> nat \<Rightarrow> nat \<Rightarrow> nat \<Rightarrow> nat option" where
  "runeIndexAt [] strIdx i startAt = (if startAt = strIdx then Some i else None)"
| "runeIndexAt ((r, w) # ws) strIdx i startAt =
     (if strIdx = startAt then Some i else runeIndexAt ws (strIdx + w) (Suc i) startAt)"

definition getRunesAndStart :: "string \<Rightarrow> nat \<Rightarrow> rune list \<times> nat option" where
  "getRunesAndStart s startAt = (getRunes s, runeIndexAt (decode s) 0 0 startAt)"

definition FindStringMatchStartingAt :: "regex \<Rightarrow> string \<Rightarrow> nat \<Rightarrow> error + Match option" where
  "FindStringMatchStartingAt re s startAt =
     (if length s < startAt then Inl StartAtTooLarge
      else case getRunesAndStart s startAt of
        (rs, None) \<Rightarrow> Inl StartAtNotAligned
      | (rs, Some start) \<Rightarrow> Inr (run re start rs))"

text \<open>
  The loop of \<open>replace\<close>: \<open>t\<close> are the runes from the current position on, \<open>n\<close> the length
  of the match found there, \<open>count\<close> the replacements still allowed (all when negative).
  The runes between matches are written back as UTF-8.
\<close>

function replaceFrom :: "regex \<Rightarrow> string \<Rightarrow> rune list \<Rightarrow> int \<Rightarrow> string" where
  "replaceFrom re repl t count =
     (if count = 0 then EncodeRunes t
      else case rx_match re t of
        [] \<Rightarrow> (case t of [] \<Rightarrow> [] | r # rs \<Rightarrow> EncodeRune r @ replaceFrom re repl rs count)
      | n # _ \<Rightarrow>
          if n = 0 then
            repl @ (case t of [] \<Rightarrow> []
                    | r # rs \<Rightarrow> EncodeRune r @ replaceFrom re repl rs (count - 1))
          else repl @ replaceFrom re repl (drop n t) (count - 1))"
  by pat_completeness auto
termination
proof (relation "measure (\<lambda>(re, repl, t, count). length t)")
  fix re :: regex and repl :: string and t :: "rune list" and count :: int and n ns
  assume "rx_match re t = n # ns" and "n \<noteq> 0"
  then have "n \<in> set (rx_match re t)" and "0 < n"
    by simp_all
  then have "t \<noteq> []"
    using rx_match_le_length [of n re t] by auto
  then show "((re, repl, drop n t, count - 1), (re, repl, t, count))
      \<in> measure (\<lambda>(re, repl, t, count). length t)"
    using \<open>0 < n\<close> by simp
qed auto

declare replaceFrom.simps [simp del]

text \<open>
  \<open>re.Replace(input, replacement, startAt, count)\<close>. The replacements used by the package
  hold no \<open>$\<close>, so each is a literal. The matches from \<open>startAt\<close> on are replaced; an input
  with no match there is returned as it is.
\<close>

definition Replace :: "regex \<Rightarrow> string \<Rightarrow> string \<Rightarrow> nat \<Rightarrow> int \<Rightarrow> error + string" where
  "Replace re input replacement startAt count =
     (if count < -1 then Inl CountTooSmall
      else if count = 0 then Inr []
      else case FindStringMatchStartingAt re input startAt of
        Inl err \<Rightarrow> Inl err
      | Inr None \<Rightarrow> Inr input
      | Inr (Some m) \<Rightarrow>
          Inr (EncodeRunes (take (Index m) (mtext m))
               @ replaceFrom re replacement (drop (Index m) (mtext m)) count))"

section \<open>Package names: the rule table\<close>

record initialismTranslator =
  camel :: string
  upper :: string
  lower :: string
  re :: "regex option"

definition tr :: "string \<Rightarrow> string \<Rightarrow> string \<Rightarrow> regex option \<Rightarrow> initialismTranslator" where
  "tr c u l r = \<lparr>camel = c, upper = u, lower = l, re = r\<rparr>"

text \<open>
  The table \<open>initialisms\<close>, in the order of the source. An entry without a matcher
  (\<open>nil\<close>) has \<open>None\<close>; a matcher is the source's pattern as a \<open>regex\<close>, for instance
  \<open>Id(?!entifier|le|entity|empotency)\<close> for the entry of \<open>Id\<close>.
\<close>

definition initialisms :: "initialismTranslator list" where
  "initialisms =
    [tr ''Ids'' ''IDs'' ''ids''
       (Some (Seq (NotAhead (OneOf ''U|u'')) (Lit ''Ids''))),
     tr ''Id'' ''ID'' ''id''
       (Some (Seq (Lit ''Id'') (NotAhead (Alt (Lit ''entifier'') (Alt (Lit ''le'') (Alt (Lit ''entity'') (Lit ''empotency''))))))),
     tr ''Dbi'' ''DBI'' ''dbi''
       (Some (Lit ''Dbi'')),
     tr ''Db'' ''DB'' ''db''
       (Some (Seq (Lit ''Db'') (NotAhead (Lit ''i'')))),
     tr ''Db'' ''DB'' ''db''
       (Some (Lit ''DB'')),
     tr ''CACert'' ''CACert'' ''caCert''
       (Some (Lit ''CACert'')),
     tr ''MD5Of'' ''MD5Of'' ''md5Of''
       (Some (Seq (Lit ''M'') (Seq (OneOf ''dD'') (Lit ''5Of'')))),
     tr ''Ipc'' ''IPC'' ''ipc''
       (Some (Lit ''Ipc'')),
     tr ''IPAddress'' ''IPAddress'' ''ip_address'' None,
     tr ''IPv4'' ''IPv4'' ''ipv4''
       (Some (Seq (Lit ''I'') (Seq (OneOf ''Pp'') (Lit ''v4'')))),
     tr ''IPv6'' ''IPv6'' ''ipv6''
       (Some (Seq (Lit ''I'') (Seq (OneOf ''Pp'') (Lit ''v6'')))),
     tr ''Ip'' ''IP'' ''ip''
       (Some (Seq (Lit ''Ip'') (NotAhead (Alt (Lit ''art'') (Lit ''am''))))),
     tr ''IPSet'' ''IPSet'' ''ip_set'' None,
     tr ''Amis'' ''AMIs'' ''amis''
       (Some (Lit ''Amis'')),
     tr ''Ami'' ''AMI'' ''ami''
       (Some (Lit ''Ami'')),
     tr ''Acl'' ''ACL'' ''acl'' None,
     tr ''Acm'' ''ACM'' ''acm'' None,
     tr ''AIML'' ''AIML'' ''aiml'' None,
     tr ''Acp'' ''ACP'' ''acp'' None,
     tr ''Api'' ''API'' ''api'' None,
     tr ''Arn'' ''ARN'' ''arn'' None,
     tr ''Asn'' ''ASN'' ''asn'' None,
     tr ''Awsvpc'' ''AWSVPC'' ''awsVPC'' None,
     tr ''Aws'' ''AWS'' ''aws'' None,
     tr ''Az'' ''AZ'' ''az'' None,
     tr ''Bgp'' ''BGP'' ''bgp'' None,
     tr ''Cors'' ''CORS'' ''cors'' None,
     tr ''Cidr'' ''CIDR'' ''cidr'' None,
     tr ''Cname'' ''CNAME'' ''cname'' None,
     tr ''Cpu'' ''CPU'' ''cpu'' None,
     tr ''Crl'' ''CRL'' ''crl'' None,
     tr ''Cps'' ''CPS'' ''cps'' None,
     tr ''Csr'' ''CSR'' ''csr'' None,
     tr ''Dhcp'' ''DHCP'' ''dhcp'' None,
     tr ''Dns'' ''DNS'' ''dns'' None,
     tr ''Dpd'' ''DPD'' ''dpd'' None,
     tr ''Ebs'' ''EBS'' ''ebs'' None,
     tr ''Ec2'' ''EC2'' ''ec2'' None,
     tr ''Ecr'' ''ECR'' ''ecr''
       (Some (Seq (NotAhead (Alt (Lit ''S'') (Alt (Lit ''s'') (Alt (Lit ''D'') (Lit ''d''))))) (Seq (OneOf ''Ee'') (Seq (Lit ''cr'') (NotAhead (Alt (Lit ''et'') (Lit ''ease''))))))),
     tr ''Ecs'' ''ECS'' ''ecs'' None,
     tr ''Edi'' ''EDI'' ''edi''
       (Some (Seq (Lit ''Edi'') (NotAhead (Lit ''t'')))),
     tr ''Efs'' ''EFS'' ''efs'' None,
     tr ''Eks'' ''EKS'' ''eks'' None,
     tr ''Ena'' ''ENA'' ''ena''
       (Some (Seq (Lit ''Ena'') (NotAhead (Lit ''bl'')))),
     tr ''Ecmp'' ''ECMP'' ''ecmp'' None,
     tr ''Fifo'' ''FIFO'' ''fifo'' None,
     tr ''Fpga'' ''FPGA'' ''fpga'' None,
     tr ''Gid'' ''GID'' ''gid'' None,
     tr ''Gpu'' ''GPU'' ''gpu'' None,
     tr ''Grpc'' ''GRPC'' ''grpc'' None,
     tr ''Html'' ''HTML'' ''html'' None,
     tr ''Http'' ''HTTP'' ''http''
       (Some (Alt (Seq (Lit ''HTTP'') (NotAhead (Seq (Lit ''S'') (Range CHR ''A'' CHR ''Z'')))) (Seq (Lit ''Http'') (NotAhead (Lit ''s''))))),
     tr ''Https'' ''HTTPS'' ''https'' None,
     tr ''Iam'' ''IAM'' ''iam'' None,
     tr ''Icmp'' ''ICMP'' ''icmp'' None,
     tr ''Io'' ''IO'' ''io''
       (Some (Seq (Lit ''Io'') (NotAhead (Lit ''ps'')))),
     tr ''Iops'' ''IOPS'' ''iops'' None,
     tr ''Ipam'' ''IPAM'' ''ipam'' None,
     tr ''Ja3'' ''JA3'' ''ja3'' None,
     tr ''Json'' ''JSON'' ''json'' None,
     tr ''Jwt'' ''JWT'' ''jwt'' None,
     tr ''Kms'' ''KMS'' ''kms'' None,
     tr ''Ldap'' ''LDAP'' ''ldap'' None,
     tr ''Mfa'' ''MFA'' ''mfa'' None,
     tr ''Mibps'' ''MiBps'' ''miBps''
       (Some (Lit ''Mibps'')),
     tr ''Nat'' ''NAT'' ''nat''
       (Some (Seq (Lit ''Nat'') (NotAhead (Lit ''i'')))),
     tr ''Oid'' ''OID'' ''oid''
       (Some (Seq (Lit ''Oid'') (NotAhead (Lit ''c'')))),
     tr ''OID'' ''OID'' ''oid''
       (Some (Seq (Lit ''OID'') (NotAhead (Lit ''C'')))),
     tr ''Oidc'' ''OIDC'' ''oidc'' None,
     tr ''Ocsp'' ''OCSP'' ''ocsp'' None,
     tr ''Pca'' ''PCA'' ''pca'' None,
     tr ''Pid'' ''PID'' ''pid'' None,
     tr ''Ramdisk'' ''RAMDisk'' ''ramDisk''
       (Some (Lit ''Ramdisk'')),
     tr ''Ram'' ''RAM'' ''ram''
       (Some (Lit ''Ram'')),
     tr ''Rfc'' ''RFC'' ''rfc'' None,
     tr ''Sasl'' ''SASL'' ''sasl'' None,
     tr ''Scram'' ''SCRAM'' ''scram'' None,
     tr ''Sdk'' ''SDK'' ''sdk'' None,
     tr ''Sha256'' ''SHA256'' ''sha256'' None,
     tr ''Sns'' ''SNS'' ''sns'' None,
     tr ''Sqli'' ''SQLI'' ''sqli'' None,
     tr ''Sql'' ''SQL'' ''sql'' None,
     tr ''Sqs'' ''SQS'' ''sqs'' None,
     tr ''Sriov'' ''SRIOV'' ''sriov'' None,
     tr ''Sse'' ''SSE'' ''sse'' None,
     tr ''Ssl'' ''SSL'' ''ssl'' None,
     tr ''Tcp'' ''TCP'' ''tcp'' None,
     tr ''Tde'' ''TDE'' ''tde'' None,
     tr ''Tpm'' ''TPM'' ''tpm'' None,
     tr ''Tls'' ''TLS'' ''tls'' None,
     tr ''Ttl'' ''TTL'' ''ttl''
       (Some (Seq (NotAhead (Lit ''Thro'')) (Seq (LitI ''ttl'') (NotAhead (Alt (Lit ''ing'') (Lit ''e'')))))),
     tr ''Udp'' ''UDP'' ''udp'' None,
     tr ''Uri'' ''URI'' ''uri''
       (Some (Alt (Seq (NotAhead (Lit ''sec'')) (Seq (Lit ''uri'') (NotAhead (Lit ''ty'')))) (Lit ''Uri''))),
     tr ''Url'' ''URL'' ''url'' None,
     tr ''Uuid'' ''UUID'' ''uuid'' None,
     tr ''Uids'' ''UIDs'' ''uids''
       (Some (Lit ''Uids'')),
     tr ''Uid'' ''UID'' ''uid''
       (Some (Lit ''Uid'')),
     tr ''Ui'' ''UI'' ''ui''
       (Some (Seq (Lit ''U'') (Seq (Alt (Lit ''I'') (Lit ''i'')) (NotAhead (Alt (Lit ''D'') (Lit ''d'')))))),
     tr ''Vlan'' ''VLAN'' ''vlan'' None,
     tr ''Vpc'' ''VPC'' ''vpc'' None,
     tr ''Vpn'' ''VPN'' ''vpn'' None,
     tr ''Vgw'' ''VGW'' ''vgw'' None,
     tr ''Waf'' ''WAF'' ''waf'' None,
     tr ''Xml'' ''XML'' ''xml'' None,
     tr ''Xss'' ''XSS'' ''xss'' None,
     tr ''Yaml'' ''YAML'' ''yaml'' None]"

definition goKeywords :: "string list" where
  "goKeywords =
     [''break'', ''case'', ''chan'', ''const'', ''continue'', ''default'', ''defer'', ''else'', ''fallthrough'', ''for'', ''func'', ''go'', ''goto'', ''if'', ''import'', ''interface'', ''map'', ''package'', ''range'', ''return'', ''select'', ''struct'', ''switch'', ''type'', ''var'']"

text \<open>\<open>strutil.InStrings\<close>\<close>

fun InStrings :: "string \<Rightarrow> string list \<Rightarrow> bool" where
  "InStrings subject [] = False"
| "InStrings subject (item # collection) =
     (if subject = item then True else InStrings subject collection)"

section \<open>Package strcase: the word boundary caser\<close>

text \<open>
  Modelled from the spec: the Word Boundary Caser of section 4.1 (\<open>toPascal\<close>,
  \<open>toLowerCamel\<close>) and the snake re-casting are the functions \<open>ToCamel\<close>,
  \<open>ToLowerCamel\<close> and \<open>ToSnake\<close> of the imported package \<open>strcase\<close>, whose source is not
  among the files of the repository. The definitions follow the byte loops of that
  package: letters and digits are kept, every other byte is dropped, a letter after a
  delimiter (\<open>_\<close>, space, \<open>-\<close>, \<open>.\<close>) or a digit is upper-cased, and the string \<open>ID\<close>
  is the package's one pre-configured acronym.
\<close>

definition uppercaseAcronym :: "string \<Rightarrow> string option" where
  "uppercaseAcronym s = (if s = ''ID'' then Some ''id'' else None)"

definition isDelim :: "char \<Rightarrow> bool" where
  "isDelim v \<longleftrightarrow> v = CHR ''_'' \<or> v = CHR '' '' \<or> v = CHR ''-'' \<or> v = CHR ''.''"

text \<open>The loop of \<open>toCamelInitCase\<close>; \<open>first\<close> says that the byte is at index 0.\<close>

fun camelLoop :: "string \<Rightarrow> bool \<Rightarrow> bool \<Rightarrow> string" where
  "camelLoop [] capNext first = []"
| "camelLoop (v # vs) capNext first =
     (let vIsCap = isCap v; vIsLow = isLow v;
          v' = (if capNext then (if vIsLow then toUpperByte v else v)
                else if first then (if vIsCap then toLowerByte v else v)
                else v)
      in if vIsCap \<or> vIsLow then v' # camelLoop vs False False
         else if isNum v then v' # camelLoop vs True False
         else camelLoop vs (isDelim v) False)"

definition toCamelInitCase :: "string \<Rightarrow> bool \<Rightarrow> string" where
  "toCamelInitCase s0 initCase =
     (let s = TrimSpace s0 in
      if s = [] then s
      else camelLoop (case uppercaseAcronym s of Some a \<Rightarrow> a | None \<Rightarrow> s) initCase True)"

definition ToCamel :: "string \<Rightarrow> string" where
  "ToCamel s = toCamelInitCase s True"

definition ToLowerCamel :: "string \<Rightarrow> string" where
  "ToLowerCamel s = toCamelInitCase s False"

text \<open>
  The loop of \<open>ToScreamingDelimited(s, '_', 0, false)\<close>, which is \<open>ToSnake\<close>: \<open>prevIsCap\<close>
  says that the byte before \<open>v\<close> is an upper-case letter.
\<close>

fun snakeLoop :: "string \<Rightarrow> bool \<Rightarrow> string" where
  "snakeLoop [] prevIsCap = []"
| "snakeLoop (v # vs) prevIsCap =
     (let vIsCap = isCap v; vIsLow = isLow v;
          v' = (if vIsCap then toLowerByte v else v)
      in case vs of
           [] \<Rightarrow> (if isDelim v' then [CHR ''_''] else [v'])
         | next # _ \<Rightarrow>
             (let vIsNum = isNum v';
                  nextIsCap = isCap next; nextIsLow = isLow next; nextIsNum = isNum next
              in if (vIsCap \<and> (nextIsLow \<or> nextIsNum)) \<or> (vIsLow \<and> (nextIsCap \<or> nextIsNum))
                    \<or> (vIsNum \<and> (nextIsCap \<or> nextIsLow))
                 then (if vIsCap \<and> nextIsLow \<and> prevIsCap then [CHR ''_''] else [])
                      @ [v']
                      @ (if vIsLow \<or> vIsNum \<or> nextIsNum then [CHR ''_''] else [])
                      @ snakeLoop vs vIsCap
                 else (if isDelim v' then CHR ''_'' else v') # snakeLoop vs vIsCap))"

definition ToSnake :: "string \<Rightarrow> string" where
  "ToSnake s = snakeLoop (TrimSpace s) False"

section \<open>Package names: the normalizer\<close>

text \<open>
  One turn of the loop of \<open>normalizeInitialisms\<close>: the entry \<open>initTrx\<close> applied to
  \<open>result\<close>. \<open>Inl\<close> is the error that the function returns; \<open>continue\<close> is \<open>Inr\<close> of the
  string reached. \<open>FindStringMatch\<close> and \<open>FindNextMatch\<close> only fail on a match timeout,
  which is not set.
\<close>

definition applyInitialism :: "initialismTranslator \<Rightarrow> string \<Rightarrow> bool \<Rightarrow> bool \<Rightarrow> error + string" where
  "applyInitialism initTrx result lowerFirst snake =
     (case re initTrx of
        None \<Rightarrow>
          if snake then
            (let toReplace = ''_'' @ lower initTrx @ ''_'';
                 result = StrReplace result (lower initTrx) toReplace (-1);
                 result = StrReplace result (upper initTrx) toReplace (-1)
             in Inr result)
          else
            (let result =
                   (if lowerFirst \<and> StrIndex result (upper initTrx) = Some 0
                    then StrReplace result (upper initTrx) (lower initTrx) 1
                    else result)
             in case StrIndex result (camel initTrx) of
                  None \<Rightarrow> Inr result
                | Some 0 \<Rightarrow>
                    (let result =
                           (if lowerFirst
                            then StrReplace result (camel initTrx) (lower initTrx) 1
                            else result);
                         toReplace =
                           (if snake then ''_'' @ upper initTrx @ ''_'' else upper initTrx)
                     in Inr (StrReplace result (camel initTrx) toReplace (-1)))
                | Some (Suc pos) \<Rightarrow>
                    (let toReplace =
                           (if snake then ''_'' @ upper initTrx @ ''_'' else upper initTrx)
                     in Inr (StrReplace result (camel initTrx) toReplace (-1))))
      | Some rx \<Rightarrow>
          (case FindStringMatch rx result of
             None \<Rightarrow> Inr result
           | Some match \<Rightarrow>
               (let toReplace =
                      (if snake then ''_'' @ lower initTrx @ ''_'' else upper initTrx)
                in if lowerFirst \<and> Index match = 0 then
                     (case Replace rx result (lower initTrx) 0 1 of
                        Inl err \<Rightarrow> Inl err
                      | Inr result \<Rightarrow>
                          (case FindNextMatch rx match of
                             None \<Rightarrow> Inr result
                           | Some match \<Rightarrow> Replace rx result toReplace (Index match) (-1)))
                   else Replace rx result toReplace (Index match) (-1))))"

fun normalizeLoop :: "initialismTranslator list \<Rightarrow> string \<Rightarrow> bool \<Rightarrow> bool \<Rightarrow> error + string" where
  "normalizeLoop [] result lowerFirst snake = Inr result"
| "normalizeLoop (initTrx # rest) result lowerFirst snake =
     (case applyInitialism initTrx result lowerFirst snake of
        Inl err \<Rightarrow> Inl err
      | Inr result \<Rightarrow> normalizeLoop rest result lowerFirst snake)"

definition snakeCleanup :: "string \<Rightarrow> string" where
  \<comment> \<open>the two statements under the final \<open>if snake\<close>\<close>
  "snakeCleanup result = Trim (StrReplace result ''__'' ''_'' (-1)) ''_''"

definition normalizeInitialisms :: "string \<Rightarrow> bool \<Rightarrow> bool \<Rightarrow> error + string" where
  "normalizeInitialisms original lowerFirst snake =
     (case normalizeLoop initialisms original lowerFirst snake of
        Inl err \<Rightarrow> Inl err
      | Inr result \<Rightarrow> Inr (if snake then snakeCleanup result else result))"

section \<open>Package names: the variants of a name\<close>

text \<open>\<open>goName\<close>; \<open>Inl err\<close> is \<open>panic(err)\<close>.\<close>

definition goName :: "string \<Rightarrow> bool \<Rightarrow> bool \<Rightarrow> error + string" where
  "goName original lowerFirst snake =
     (let result = (if \<not> lowerFirst then ToCamel original else original)
      in case normalizeInitialisms result lowerFirst snake of
           Inl err \<Rightarrow> Inl err
         | Inr result \<Rightarrow>
             (case (if lowerFirst
                    then normalizeInitialisms (ToLowerCamel result) lowerFirst snake
                    else Inr result) of
                Inl err \<Rightarrow> Inl err
              | Inr result \<Rightarrow>
                  (let result = (if snake then ToSnake result else result)
                   in Inr (if InStrings result goKeywords then result @ ''_'' else result))))"

record Names =
  Original :: string
  Camel :: string
  CamelLower :: string
  Lower :: string
  Snake :: string
  SnakeStripped :: string

definition isAlphaNum :: "char \<Rightarrow> bool" where
  \<comment> \<open>the class \<open>[a-zA-Z0-9]\<close>\<close>
  "isAlphaNum c \<longleftrightarrow> isLow c \<or> isCap c \<or> isNum c"

text \<open>
  \<open>nonAlphaNumRegexp.ReplaceAllString(s, repl)\<close> for the pattern \<open>[^a-zA-Z0-9]+\<close>: every
  maximal run of bytes outside the class is replaced by \<open>repl\<close>. (A rune outside ASCII,
  and an invalid byte, is made of bytes outside the class.)
\<close>

function ReplaceAllString :: "string \<Rightarrow> string \<Rightarrow> string" where
  "ReplaceAllString [] repl = []"
| "ReplaceAllString (c # cs) repl =
     (if isAlphaNum c then c # ReplaceAllString cs repl
      else repl @ ReplaceAllString (dropWhile (\<lambda>c. \<not> isAlphaNum c) cs) repl)"
  by pat_completeness auto
termination
  by (relation "measure (\<lambda>(s, repl). length s)")
     (auto simp: length_dropWhile_le less_Suc_eq_le)

text \<open>
  \<open>New\<close>: the fields are computed in the order of the source, and a panic of any call of
  \<open>goName\<close> is a panic of \<open>New\<close>.
\<close>

definition New :: "string \<Rightarrow> error + Names" where
  "New original =
     (case goName original False False of
        Inl err \<Rightarrow> Inl err
      | Inr c \<Rightarrow>
     (case goName original True False of
        Inl err \<Rightarrow> Inl err
      | Inr cl \<Rightarrow>
     (case goName original False True of
        Inl err \<Rightarrow> Inl err
      | Inr sn \<Rightarrow>
     (case goName original False True of
        Inl err \<Rightarrow> Inl err
      | Inr sn' \<Rightarrow>
          Inr \<lparr>Original = original, Camel = c, CamelLower = cl, Lower = ToLower original,
               Snake = sn, SnakeStripped = ReplaceAllString sn' []\<rparr>))))"

section \<open>The formulas of the specification\<close>

text \<open>
  The specification describes the variants by formulas over \<open>toPascal\<close>, \<open>toLowerCamel\<close>,
  \<open>normalize\<close> and \<open>guard\<close>. They are written down here as the specification words
  them, to be compared with \<open>goName\<close> and \<open>New\<close>.
\<close>

definition guard :: "string \<Rightarrow> string" where
  \<comment> \<open>section 4.3: a member of the reserved-word set gets one trailing underscore\<close>
  "guard s = (if s \<in> set goKeywords then s @ ''_'' else s)"

definition andThen :: "error + 'a \<Rightarrow> ('a \<Rightarrow> error + 'b) \<Rightarrow> error + 'b" where
  "andThen r f = (case r of Inl err \<Rightarrow> Inl err | Inr x \<Rightarrow> f x)"

definition spec_LowerCamel :: "string \<Rightarrow> error + string" where
  \<comment> \<open>section 4.4:
      \<open>guard(normalize(toLowerCamel(normalize(toPascal(raw), false, false)), true, false))\<close>\<close>
  "spec_LowerCamel raw =
     andThen (normalizeInitialisms (ToCamel raw) False False) (\<lambda>pascal.
     andThen (normalizeInitialisms (ToLowerCamel pascal) True False) (\<lambda>r.
     Inr (guard r)))"

definition spec_Snake :: "string \<Rightarrow> error + string" where
  \<comment> \<open>section 4.4: \<open>normalize(toPascal(raw), false, true)\<close>, then guarded\<close>
  "spec_Snake raw =
     andThen (normalizeInitialisms (ToCamel raw) False True) (\<lambda>r. Inr (guard r))"

definition cased :: "string \<Rightarrow> bool \<Rightarrow> bool \<Rightarrow> error + string" where
  \<comment> \<open>the casing pipeline: the string that \<open>goName\<close> has reached before its last
      statement, the test against \<open>goKeywords\<close>\<close>
  "cased original lowerFirst snake =
     andThen (normalizeInitialisms (if lowerFirst then original else ToCamel original)
                lowerFirst snake) (\<lambda>r1.
     andThen (if lowerFirst then normalizeInitialisms (ToLowerCamel r1) lowerFirst snake
              else Inr r1) (\<lambda>r2.
     Inr (if snake then ToSnake r2 else r2)))"


section \<open>Notions for the proofs\<close>

text \<open>
  A string of ASCII bytes, runes below 128, the lengths that a match of a pattern can
  have, and what the proofs need of an entry of the table: ASCII forms, and a matcher
  all of whose matches are as long as the entry's lower-case form.
\<close>

definition isASCII :: "string \<Rightarrow> bool" where
  "isASCII s \<longleftrightarrow> list_all (\<lambda>c. byte c < 128) s"

definition lowRunes :: "rune list \<Rightarrow> bool" where
  "lowRunes rs \<longleftrightarrow> list_all (\<lambda>r. 0 \<le> r \<and> r < 128) rs"

fun rx_widths :: "regex \<Rightarrow> nat list" where
  "rx_widths (Lit cs) = [length cs]"
| "rx_widths (LitI cs) = [length cs]"
| "rx_widths (OneOf cs) = [1]"
| "rx_widths (Range lo hi) = [1]"
| "rx_widths (Seq a b) = concat (map (\<lambda>n. map (\<lambda>m. n + m) (rx_widths b)) (rx_widths a))"
| "rx_widths (Alt a b) = rx_widths a @ rx_widths b"
| "rx_widths (NotAhead a) = [0]"

definition goodEntry :: "initialismTranslator \<Rightarrow> bool" where
  "goodEntry t \<longleftrightarrow>
     isASCII (camel t) \<and> isASCII (upper t) \<and> isASCII (lower t)
     \<and> (case re t of None \<Rightarrow> True
         | Some rx \<Rightarrow> list_all (\<lambda>w. w = length (lower t)) (rx_widths rx))"

section \<open>The fields of a result of \<open>New\<close>\<close>

lemma New_fields:
  assumes "New raw = Inr n"
  shows "goName raw False False = Inr (Camel n)"
    and "goName raw True False = Inr (CamelLower n)"
    and "goName raw False True = Inr (Snake n)"
    and "SnakeStripped n = ReplaceAllString (Snake n) []"
    and "Original n = raw"
  using assms by (auto simp: New_def split: sum.splits)

lemma filter_dropWhile_not: "filter P (dropWhile (\<lambda>c. \<not> P c) cs) = filter P cs"
  by (induction cs) auto

lemma ReplaceAllString_empty: "ReplaceAllString s [] = filter isAlphaNum s"
  by (induction s "[] :: string" rule: ReplaceAllString.induct)
     (auto simp: filter_dropWhile_not)

section \<open>Names evaluated\<close>





lemma goName_KeyId_Camel: "goName ''KeyId'' False False = Inr ''KeyID''"
  by code_simp

lemma goName_KeyId_CamelLower: "goName ''KeyId'' True False = Inr ''keyID''"
  by code_simp

lemma goName_KeyId_Snake: "goName ''KeyId'' False True = Inr ''key_id''"
  by code_simp

lemma New_KeyId:
  "New ''KeyId'' =
     Inr \<lparr>Original = ''KeyId'', Camel = ''KeyID'', CamelLower = ''keyID'',
          Lower = ''keyid'', Snake = ''key_id'', SnakeStripped = ''keyid''\<rparr>"
  unfolding New_def goName_KeyId_Camel goName_KeyId_CamelLower goName_KeyId_Snake
  by code_simp

lemma goName_IdId_Camel: "goName ''IdId'' False False = Inr ''IDID''"
  by code_simp

lemma goName_IdId_CamelLower: "goName ''IdId'' True False = Inr ''idID''"
  by code_simp

lemma goName_IdId_Snake: "goName ''IdId'' False True = Inr ''id_id''"
  by code_simp

lemma New_IdId:
  "New ''IdId'' =
     Inr \<lparr>Original = ''IdId'', Camel = ''IDID'', CamelLower = ''idID'',
          Lower = ''idid'', Snake = ''id_id'', SnakeStripped = ''idid''\<rparr>"
  unfolding New_def goName_IdId_Camel goName_IdId_CamelLower goName_IdId_Snake
  by code_simp













lemma goName_DbInstanceId_Camel: "goName ''DbInstanceId'' False False = Inr ''DBInstanceID''"
  by code_simp

lemma goName_DbInstanceId_CamelLower: "goName ''DbInstanceId'' True False = Inr ''dbInstanceID''"
  by code_simp

lemma goName_DbInstanceId_Snake: "goName ''DbInstanceId'' False True = Inr ''db_instance_id''"
  by code_simp

lemma New_DbInstanceId:
  "New ''DbInstanceId'' =
     Inr \<lparr>Original = ''DbInstanceId'', Camel = ''DBInstanceID'', CamelLower = ''dbInstanceID'',
          Lower = ''dbinstanceid'', Snake = ''db_instance_id'', SnakeStripped = ''dbinstanceid''\<rparr>"
  unfolding New_def goName_DbInstanceId_Camel goName_DbInstanceId_CamelLower goName_DbInstanceId_Snake
  by code_simp

lemma goName_Package_Camel: "goName ''Package'' False False = Inr ''Package''"
  by code_simp

lemma goName_Package_CamelLower: "goName ''Package'' True False = Inr ''package_''"
  by code_simp

lemma goName_Package_Snake: "goName ''Package'' False True = Inr ''package_''"
  by code_simp

lemma New_Package:
  "New ''Package'' =
     Inr \<lparr>Original = ''Package'', Camel = ''Package'', CamelLower = ''package_'',
          Lower = ''package'', Snake = ''package_'', SnakeStripped = ''package''\<rparr>"
  unfolding New_def goName_Package_Camel goName_Package_CamelLower goName_Package_Snake
  by code_simp

lemma goName_AIML_Camel: "goName ''AIML'' False False = Inr ''AIML''"
  by code_simp

lemma goName_AIML_CamelLower: "goName ''AIML'' True False = Inr ''aiml''"
  by code_simp

lemma goName_AIML_Snake: "goName ''AIML'' False True = Inr ''aiml''"
  by code_simp

lemma New_AIML:
  "New ''AIML'' =
     Inr \<lparr>Original = ''AIML'', Camel = ''AIML'', CamelLower = ''aiml'',
          Lower = ''aiml'', Snake = ''aiml'', SnakeStripped = ''aiml''\<rparr>"
  unfolding New_def goName_AIML_Camel goName_AIML_CamelLower goName_AIML_Snake
  by code_simp

lemma goName_SSEKMSKeyID_Camel: "goName ''SSEKMSKeyID'' False False = Inr ''SSEKMSKeyID''"
  by code_simp

lemma goName_SSEKMSKeyID_CamelLower: "goName ''SSEKMSKeyID'' True False = Inr ''sseKMSKeyID''"
  by code_simp

lemma goName_SSEKMSKeyID_Snake: "goName ''SSEKMSKeyID'' False True = Inr ''sse_kms_key_id''"
  by code_simp

lemma New_SSEKMSKeyID:
  "New ''SSEKMSKeyID'' =
     Inr \<lparr>Original = ''SSEKMSKeyID'', Camel = ''SSEKMSKeyID'', CamelLower = ''sseKMSKeyID'',
          Lower = ''ssekmskeyid'', Snake = ''sse_kms_key_id'', SnakeStripped = ''ssekmskeyid''\<rparr>"
  unfolding New_def goName_SSEKMSKeyID_Camel goName_SSEKMSKeyID_CamelLower goName_SSEKMSKeyID_Snake
  by code_simp

lemma goName_PCASQLI_Camel: "goName ''PCASQLI'' False False = Inr ''PCASQLI''"
  by code_simp

lemma goName_PCASQLI_CamelLower: "goName ''PCASQLI'' True False = Inr ''pcaSQLI''"
  by code_simp

lemma goName_PCASQLI_Snake: "goName ''PCASQLI'' False True = Inr ''pca__sql_i''"
  by code_simp

lemma New_PCASQLI:
  "New ''PCASQLI'' =
     Inr \<lparr>Original = ''PCASQLI'', Camel = ''PCASQLI'', CamelLower = ''pcaSQLI'',
          Lower = ''pcasqli'', Snake = ''pca__sql_i'', SnakeStripped = ''pcasqli''\<rparr>"
  unfolding New_def goName_PCASQLI_Camel goName_PCASQLI_CamelLower goName_PCASQLI_Snake
  by code_simp

section \<open>The reserved-word guard inside \<open>goName\<close>\<close>

lemma InStrings_set: "InStrings s xs \<longleftrightarrow> s \<in> set xs"
  by (induction xs) auto

lemma goName_cased:
  "goName original lowerFirst snake =
     andThen (cased original lowerFirst snake) (\<lambda>s. Inr (guard s))"
  by (auto simp: goName_def cased_def andThen_def guard_def InStrings_set Let_def
      split: sum.splits)

section \<open>The lower camel variant\<close>

text \<open>
  C1, as the specification states it: \<open>CamelLower\<close> is \<open>spec_LowerCamel\<close>, which casts the
  raw name to Pascal case and normalizes it with \<open>lowerFirst = false\<close> before the lower
  camel re-cast. That fails for the name \<open>IdId\<close>: \<open>New\<close> gives \<open>idID\<close>, the formula \<open>iDID\<close>.
\<close>

lemma spec_LowerCamel_IdId: "spec_LowerCamel ''IdId'' = Inr ''iDID''"
  by code_simp

theorem LowerCamel_spec_formula_counterexample:
  "New ''IdId'' =
     Inr \<lparr>Original = ''IdId'', Camel = ''IDID'', CamelLower = ''idID'',
          Lower = ''idid'', Snake = ''id_id'', SnakeStripped = ''idid''\<rparr>
   \<and> spec_LowerCamel ''IdId'' = Inr ''iDID''"
  using New_IdId spec_LowerCamel_IdId by simp

text \<open>
  C1, amended: for every raw name for which \<open>New\<close> returns, \<open>CamelLower\<close> is the guard
  applied to the second pass of the normalizer (\<open>lowerFirst = true\<close>) over the lower camel
  re-cast of a first pass, and that first pass runs with \<open>lowerFirst = true\<close> on the raw
  name itself, which is not cast to Pascal case first.
\<close>

theorem LowerCamel_formula:
  "New raw = Inr n \<Longrightarrow>
     Inr (CamelLower n) =
       andThen (normalizeInitialisms raw True False) (\<lambda>first.
       andThen (normalizeInitialisms (ToLowerCamel first) True False) (\<lambda>r.
       Inr (guard r)))"
  using New_fields(2) [of raw n]
  by (auto simp: goName_cased cased_def andThen_def split: sum.splits)

theorem LowerCamel_formula_witness:
  "Inr ''idID'' =
     andThen (normalizeInitialisms ''IdId'' True False) (\<lambda>first.
     andThen (normalizeInitialisms (ToLowerCamel first) True False) (\<lambda>r.
     Inr (guard r)))"
  using LowerCamel_formula [OF New_IdId] by simp

section \<open>The snake variant\<close>

text \<open>
  C2, as the specification states it: \<open>Snake\<close> is \<open>spec_Snake\<close>, the guarded result of the
  normalizer in snake mode with no further re-casting. That fails for the name \<open>KeyId\<close>:
  \<open>New\<close> gives \<open>key_id\<close>, the formula \<open>Key_id\<close>.
\<close>

lemma spec_Snake_KeyId: "spec_Snake ''KeyId'' = Inr ''Key_id''"
  by code_simp

theorem Snake_spec_formula_counterexample:
  "New ''KeyId'' =
     Inr \<lparr>Original = ''KeyId'', Camel = ''KeyID'', CamelLower = ''keyID'',
          Lower = ''keyid'', Snake = ''key_id'', SnakeStripped = ''keyid''\<rparr>
   \<and> spec_Snake ''KeyId'' = Inr ''Key_id''"
  using New_KeyId spec_Snake_KeyId by simp

text \<open>
  C2, amended: for every raw name for which \<open>New\<close> returns, \<open>Snake\<close> is the guard applied
  to the generic snake re-cast (\<open>ToSnake\<close>) of the normalizer's result in snake mode on
  the Pascal cast of the raw name.
\<close>

theorem Snake_formula:
  "New raw = Inr n \<Longrightarrow>
     Inr (Snake n) =
       andThen (normalizeInitialisms (ToCamel raw) False True) (\<lambda>r.
       Inr (guard (ToSnake r)))"
  using New_fields(3) [of raw n]
  by (simp add: goName_cased cased_def andThen_def split: sum.splits)

theorem Snake_formula_witness:
  "Inr ''key_id'' =
     andThen (normalizeInitialisms (ToCamel ''KeyId'') False True) (\<lambda>r.
     Inr (guard (ToSnake r)))"
  using Snake_formula [OF New_KeyId] by simp

section \<open>The stripped snake form\<close>

text \<open>
  C7. For every raw name for which \<open>New\<close> returns, \<open>SnakeStripped\<close> is \<open>Snake\<close> with every
  byte that is not an ASCII letter or digit removed: the underscores between words and
  the underscore that the reserved-word guard appends are removed with them.
\<close>

theorem SnakeStripped_filters_Snake:
  "New raw = Inr n \<Longrightarrow> SnakeStripped n = filter isAlphaNum (Snake n)"
  by (simp add: New_fields(4) ReplaceAllString_empty)

theorem SnakeStripped_filters_Snake_witness:
  "''dbinstanceid'' = filter isAlphaNum ''db_instance_id''
   \<and> ''package'' = filter isAlphaNum ''package_''"
  using SnakeStripped_filters_Snake [OF New_DbInstanceId]
    SnakeStripped_filters_Snake [OF New_Package]
  by simp

section \<open>Lemmas on the string functions and the matcher\<close>

lemma HasPrefix_Nil [simp]: "HasPrefix [] p \<longleftrightarrow> p = []"
  by (cases p) auto

lemma HasPrefix_append: "HasPrefix (p @ rest) p"
  by (induction p) auto

lemma StrIndex_Some_0: "StrIndex s sub = Some 0 \<longleftrightarrow> HasPrefix s sub"
  by (cases s) auto

lemma StrReplace_prefix_once:
  "HasPrefix s old \<Longrightarrow> old \<noteq> [] \<Longrightarrow> StrReplace s old new 1 = new @ drop (length old) s"
  by (cases s) (auto simp: StrReplace.simps [of _ _ _ 1] StrReplace.simps [of _ _ _ 0])


lemma rx_find_Some:
  "rx_find rx t i = Some (j, n) \<Longrightarrow>
     i \<le> j \<and> j \<le> i + length t \<and> rx_match rx (drop (j - i) t) \<noteq> []
     \<and> n = hd (rx_match rx (drop (j - i) t))"
proof (induction t arbitrary: i)
  case Nil
  then show ?case by (auto split: list.splits)
next
  case (Cons r rs)
  show ?case
  proof (cases "rx_match rx (r # rs)")
    case Nil
    with Cons.prems have "rx_find rx rs (Suc i) = Some (j, n)" by simp
    from Cons.IH [OF this] have ih: "Suc i \<le> j" "j \<le> Suc i + length rs"
      "rx_match rx (drop (j - Suc i) rs) \<noteq> []"
      "n = hd (rx_match rx (drop (j - Suc i) rs))"
      by simp_all
    from ih(1) have "j - i = Suc (j - Suc i)" by simp
    with ih show ?thesis by simp
  next
    case (Cons k ks)
    with Cons.prems show ?thesis by auto
  qed
qed

lemma FindStringMatch_Some:
  assumes "FindStringMatch rx s = Some m"
  shows "mtext m = getRunes s" and "Index m \<le> length (getRunes s)"
    and "rx_match rx (drop (Index m) (getRunes s)) \<noteq> []"
    and "Length m = hd (rx_match rx (drop (Index m) (getRunes s)))"
proof -
  from assms obtain j n where f: "rx_find rx (getRunes s) 0 = Some (j, n)"
    and m: "m = \<lparr>mtext = getRunes s, Index = j, Length = n\<rparr>"
    by (auto simp: FindStringMatch_def run_def)
  from rx_find_Some [OF f] m
  show "mtext m = getRunes s" and "Index m \<le> length (getRunes s)"
    and "rx_match rx (drop (Index m) (getRunes s)) \<noteq> []"
    and "Length m = hd (rx_match rx (drop (Index m) (getRunes s)))"
    by simp_all
qed

section \<open>The leading-word exception\<close>











section \<open>The order of the rules\<close>


section \<open>The exclusions of the rule of \<open>Id\<close>\<close>






section \<open>The reserved-word guard\<close>

text \<open>
  C8. The last statement of \<open>goName\<close> is the guard, applied to the string that the casing
  pipeline has produced: a member of \<open>goKeywords\<close> gets one trailing underscore, any other
  string is returned as it is. \<open>New\<close> turns \<open>Package\<close> into \<open>package_\<close> in \<open>CamelLower\<close> and
  in \<open>Snake\<close>.
\<close>

theorem reserved_word_guard:
  "goName original lowerFirst snake
     = andThen (cased original lowerFirst snake) (\<lambda>s. Inr (guard s))
   \<and> (s \<in> set goKeywords \<longrightarrow> guard s = s @ ''_'')
   \<and> (s \<notin> set goKeywords \<longrightarrow> guard s = s)
   \<and> New ''Package'' =
       Inr \<lparr>Original = ''Package'', Camel = ''Package'', CamelLower = ''package_'',
            Lower = ''package'', Snake = ''package_'', SnakeStripped = ''package''\<rparr>"
  using goName_cased [of original lowerFirst snake] New_Package
  by (simp add: guard_def)

lemma package_is_keyword: "''package'' \<in> set goKeywords"
  by code_simp

lemma Package_is_no_keyword: "''Package'' \<notin> set goKeywords"
  by code_simp

theorem reserved_word_guard_witness:
  "guard ''package'' = ''package_'' \<and> guard ''Package'' = ''Package''"
  using reserved_word_guard [of _ _ _ "''package''"] reserved_word_guard [of _ _ _ "''Package''"]
    package_is_keyword Package_is_no_keyword
  by simp

section \<open>The upper-case form at the start\<close>

lemma literal_leading_upper:
  assumes "re t = None" and "upper t \<noteq> []"
  shows "applyInitialism t (upper t @ rest) True False =
     Inr (case StrIndex (lower t @ rest) (camel t) of
            None \<Rightarrow> lower t @ rest
          | Some 0 \<Rightarrow>
              StrReplace (StrReplace (lower t @ rest) (camel t) (lower t) 1)
                (camel t) (upper t) (-1)
          | Some (Suc pos) \<Rightarrow> StrReplace (lower t @ rest) (camel t) (upper t) (-1))"
  using assms
  by (simp add: applyInitialism_def StrIndex_Some_0 HasPrefix_append StrReplace_prefix_once
      split: option.splits nat.splits)

text \<open>
  C10. In non-snake mode with \<open>lowerFirst\<close>, a turn for an entry without a matcher on a
  string that starts with the entry's upper-case form first replaces that one leading
  occurrence by the lower-case form, and only then looks for the camel form in the
  string so changed; where the camel form does not occur, the string with the lowered
  start is the result. \<open>New\<close> turns \<open>AIML\<close> into \<open>aiml\<close> and \<open>SSEKMSKeyID\<close> into
  \<open>sseKMSKeyID\<close> in \<open>CamelLower\<close>.
\<close>

theorem leading_upper_form_lowered:
  "(re t = None \<and> upper t \<noteq> []
      \<longrightarrow> applyInitialism t (upper t @ rest) True False =
            Inr (case StrIndex (lower t @ rest) (camel t) of
                   None \<Rightarrow> lower t @ rest
                 | Some 0 \<Rightarrow>
                     StrReplace (StrReplace (lower t @ rest) (camel t) (lower t) 1)
                       (camel t) (upper t) (-1)
                 | Some (Suc pos) \<Rightarrow>
                     StrReplace (lower t @ rest) (camel t) (upper t) (-1)))
   \<and> (re t = None \<and> upper t \<noteq> [] \<and> StrIndex (lower t @ rest) (camel t) = None
      \<longrightarrow> applyInitialism t (upper t @ rest) True False = Inr (lower t @ rest))
   \<and> New ''AIML'' =
       Inr \<lparr>Original = ''AIML'', Camel = ''AIML'', CamelLower = ''aiml'',
            Lower = ''aiml'', Snake = ''aiml'', SnakeStripped = ''aiml''\<rparr>
   \<and> New ''SSEKMSKeyID'' =
       Inr \<lparr>Original = ''SSEKMSKeyID'', Camel = ''SSEKMSKeyID'', CamelLower = ''sseKMSKeyID'',
            Lower = ''ssekmskeyid'', Snake = ''sse_kms_key_id'',
            SnakeStripped = ''ssekmskeyid''\<rparr>"
  using literal_leading_upper [of t rest] New_AIML New_SSEKMSKeyID
  by simp

lemma Sse_literal_hyps:
  "re (tr ''Sse'' ''SSE'' ''sse'' None) = None \<and> upper (tr ''Sse'' ''SSE'' ''sse'' None) \<noteq> []
   \<and> StrIndex (lower (tr ''Sse'' ''SSE'' ''sse'' None) @ ''KMSKeyID'')
        (camel (tr ''Sse'' ''SSE'' ''sse'' None)) = None"
  by code_simp

lemma Sse_literal_strings:
  "upper (tr ''Sse'' ''SSE'' ''sse'' None) @ ''KMSKeyID'' = ''SSEKMSKeyID''"
  "lower (tr ''Sse'' ''SSE'' ''sse'' None) @ ''KMSKeyID'' = ''sseKMSKeyID''"
  by (simp_all add: tr_def)

theorem leading_upper_form_lowered_witness:
  "applyInitialism (tr ''Sse'' ''SSE'' ''sse'' None) ''SSEKMSKeyID'' True False
     = Inr ''sseKMSKeyID''"
  using leading_upper_form_lowered
          [THEN conjunct2, THEN conjunct1, THEN mp, OF Sse_literal_hyps]
  unfolding Sse_literal_strings .

section \<open>The cleanup of snake mode\<close>

text \<open>
  The second statement of the cleanup does what it is meant to: the result of the
  normalizer in snake mode neither starts nor ends with an underscore.
\<close>

lemma dropWhile_last:
  assumes "dropWhile P zs \<noteq> []"
  shows "last (dropWhile P zs) = last zs"
proof -
  have "last zs = last (takeWhile P zs @ dropWhile P zs)"
    by (simp only: takeWhile_dropWhile_id)
  also have "\<dots> = last (dropWhile P zs)"
    using assms by (rule last_appendR)
  finally show ?thesis by (rule sym)
qed

lemma Trim_trimmed:
  "Trim s cutset = []
   \<or> (hd (Trim s cutset) \<notin> set cutset \<and> last (Trim s cutset) \<notin> set cutset)"
proof -
  define P where "P = (\<lambda>c. c \<in> set cutset)"
  define x where "x = dropWhile P s"
  define y where "y = dropWhile P (rev x)"
  have t: "Trim s cutset = rev y"
    by (simp only: Trim_def P_def x_def y_def)
  show ?thesis
  proof (cases "y = []")
    case True
    then have "rev y = []" by simp
    then show ?thesis by (simp only: t simp_thms)
  next
    case False
    then have y: "dropWhile P (rev x) \<noteq> []"
      unfolding y_def .
    from y have hy: "\<not> P (hd y)"
      unfolding y_def by (rule hd_dropWhile)
    from y have "rev x \<noteq> []"
      by (cases "rev x") simp_all
    then have x: "x \<noteq> []"
      by simp
    then have "dropWhile P s \<noteq> []"
      unfolding x_def .
    then have hx: "\<not> P (hd x)"
      unfolding x_def by (rule hd_dropWhile)
    have "last y = last (rev x)"
      unfolding y_def using y by (rule dropWhile_last)
    also have "\<dots> = hd x"
      using x by (simp only: last_rev)
    finally have ly: "\<not> P (last y)"
      using hx by simp
    have "hd (rev y) = last y" and "last (rev y) = hd y"
      using False by (simp_all only: hd_rev last_rev)
    with hy ly have "hd (rev y) \<notin> set cutset \<and> last (rev y) \<notin> set cutset"
      by (simp add: P_def)
    then show ?thesis
      by (simp only: t simp_thms)
  qed
qed


lemma normalizeInitialisms_snake_trimmed:
  assumes "normalizeInitialisms s lowerFirst True = Inr r"
  shows "r = [] \<or> (hd r \<noteq> CHR ''_'' \<and> last r \<noteq> CHR ''_'')"
proof -
  from assms obtain x where "r = Trim x ''_''"
    by (auto simp: normalizeInitialisms_def snakeCleanup_def split: sum.splits)
  with Trim_trimmed [of x "''_''"] show ?thesis
    by auto
qed

text \<open>
  C3. The cleanup replaces \<open>__\<close> by \<open>_\<close> in one pass from the left, so a run of three
  underscores is left as a run of two. Such a run arises from the rules themselves: on
  \<open>PCASQLI\<close> the entries of \<open>Pca\<close> and \<open>Sqli\<close> give \<open>_pca__sqli_\<close>, and the entry of \<open>Sql\<close>
  then wraps the \<open>sql\<close> inside \<open>_sqli_\<close> once more. The result of the normalizer in
  snake mode, and the \<open>Snake\<close> variant of \<open>New\<close>, hold a doubled underscore.
\<close>

theorem snake_cleanup_leaves_doubled_delimiter:
  "ToCamel ''PCASQLI'' = ''PCASQLI''
   \<and> normalizeLoop initialisms ''PCASQLI'' False True = Inr ''_pca___sql_i_''
   \<and> StrReplace ''_pca___sql_i_'' ''__'' ''_'' (-1) = ''_pca__sql_i_''
   \<and> snakeCleanup ''_pca___sql_i_'' = ''pca__sql_i''
   \<and> normalizeInitialisms ''PCASQLI'' False True = Inr ''pca__sql_i''
   \<and> New ''PCASQLI'' =
       Inr \<lparr>Original = ''PCASQLI'', Camel = ''PCASQLI'', CamelLower = ''pcaSQLI'',
            Lower = ''pcasqli'', Snake = ''pca__sql_i'', SnakeStripped = ''pcasqli''\<rparr>"
proof -
  have "ToCamel ''PCASQLI'' = ''PCASQLI''"
    by code_simp
  moreover have loop: "normalizeLoop initialisms ''PCASQLI'' False True = Inr ''_pca___sql_i_''"
    by code_simp
  moreover have "StrReplace ''_pca___sql_i_'' ''__'' ''_'' (-1) = ''_pca__sql_i_''"
    by code_simp
  moreover have clean: "snakeCleanup ''_pca___sql_i_'' = ''pca__sql_i''"
    by code_simp
  moreover have "normalizeInitialisms ''PCASQLI'' False True = Inr ''pca__sql_i''"
    by (simp add: normalizeInitialisms_def loop clean)
  ultimately show ?thesis
    using New_PCASQLI by simp
qed

section \<open>Names of ASCII bytes\<close>

text \<open>
  On a string of ASCII bytes a rune index is a byte offset, so \<open>Replace\<close> accepts every
  index that the matcher reports, and each turn of the loop returns a string of ASCII
  bytes again. The casers of \<open>strcase\<close> keep ASCII letters and digits only. Hence
  \<open>goName\<close> with \<open>lowerFirst = false\<close>, which casts the name first, returns for every
  name; with \<open>lowerFirst = true\<close> it returns for every name of ASCII bytes, and so does
  \<open>New\<close>.
\<close>

lemma rx_match_widths: "n \<in> set (rx_match rx t) \<Longrightarrow> n \<in> set (rx_widths rx)"
proof (induction rx arbitrary: n t)
  case (Seq a b)
  then obtain k m where "k \<in> set (rx_match a t)" "m \<in> set (rx_match b (drop k t))"
    "n = k + m"
    by auto
  with Seq.IH show ?case by force
qed (auto split: if_splits list.splits)

lemma byte_nonneg: "0 \<le> byte c"
  unfolding byte_def
  by (metis of_nat_0_le_iff of_nat_of_char)

lemma byte_char_of: "0 \<le> r \<Longrightarrow> r < 128 \<Longrightarrow> byte (char_of r) = r"
  unfolding byte_def by (simp add: of_char_of)

lemma DecodeRune_ASCII: "byte c < 128 \<Longrightarrow> DecodeRune c cs = (byte c, 1)"
  by (simp add: DecodeRune_def)

lemma decode_ASCII: "isASCII s \<Longrightarrow> decode s = map (\<lambda>c. (byte c, 1)) s"
  by (induction s) (auto simp: isASCII_def DecodeRune_ASCII)

lemma getRunes_ASCII: "isASCII s \<Longrightarrow> getRunes s = map byte s"
  by (simp add: getRunes_def decode_ASCII comp_def)

lemma runeIndexAt_ASCII:
  "j \<le> k \<Longrightarrow> k \<le> j + length s \<Longrightarrow>
     runeIndexAt (map (\<lambda>c. (byte c, 1)) s) j i k = Some (i + (k - j))"
  by (induction s arbitrary: i j) auto

lemma getRunesAndStart_ASCII:
  "isASCII s \<Longrightarrow> k \<le> length s \<Longrightarrow> getRunesAndStart s k = (map byte s, Some k)"
  using runeIndexAt_ASCII [of 0 k s 0]
  by (simp add: getRunesAndStart_def getRunes_ASCII decode_ASCII)


lemma FindStringMatchStartingAt_ASCII:
  "isASCII s \<Longrightarrow> k \<le> length s \<Longrightarrow>
     FindStringMatchStartingAt rx s k = Inr (run rx k (map byte s))"
  by (simp add: FindStringMatchStartingAt_def getRunesAndStart_ASCII)

lemma isASCII_append [simp]: "isASCII (a @ b) \<longleftrightarrow> isASCII a \<and> isASCII b"
  by (simp add: isASCII_def)

lemma isASCII_Cons [simp]: "isASCII (c # s) \<longleftrightarrow> byte c < 128 \<and> isASCII s"
  by (simp add: isASCII_def)

lemma isASCII_Nil [simp]: "isASCII []"
  by (simp add: isASCII_def)

lemma isASCII_subset: "set a \<subseteq> set b \<Longrightarrow> isASCII b \<Longrightarrow> isASCII a"
  by (auto simp: isASCII_def list_all_iff)

lemma isASCII_drop: "isASCII s \<Longrightarrow> isASCII (drop n s)"
  by (rule isASCII_subset [OF set_drop_subset])

lemma lowRunes_bytes: "isASCII s \<Longrightarrow> lowRunes (map byte s)"
  by (simp add: lowRunes_def isASCII_def list_all_iff byte_nonneg)

lemma lowRunes_sub: "set a \<subseteq> set b \<Longrightarrow> lowRunes b \<Longrightarrow> lowRunes a"
  by (auto simp: lowRunes_def list_all_iff)

lemma EncodeRune_low: "0 \<le> r \<Longrightarrow> r < 128 \<Longrightarrow> isASCII (EncodeRune r)"
  by (simp add: EncodeRune_def byte_char_of)

lemma EncodeRunes_low: "lowRunes rs \<Longrightarrow> isASCII (EncodeRunes rs)"
  by (induction rs) (auto simp: EncodeRunes_def lowRunes_def EncodeRune_low)

lemma length_EncodeRunes_low: "lowRunes rs \<Longrightarrow> length (EncodeRunes rs) = length rs"
  by (induction rs) (auto simp: EncodeRunes_def lowRunes_def EncodeRune_def)

lemma replaceFrom_ASCII:
  "lowRunes t \<Longrightarrow> isASCII repl \<Longrightarrow> isASCII (replaceFrom rx repl t count)"
proof (induction rx repl t count rule: replaceFrom.induct)
  case (1 rx repl t count)
  have d: "lowRunes (drop n t)" for n
    using "1.prems"(1) by (rule lowRunes_sub [OF set_drop_subset])
  show ?case
  proof (cases "count = 0")
    case True
    then show ?thesis
      using "1.prems" by (subst replaceFrom.simps) (simp add: EncodeRunes_low)
  next
    case False
    show ?thesis
    proof (cases "rx_match rx t")
      case Nil
      show ?thesis
      proof (cases t)
        case Nil
        with \<open>rx_match rx t = []\<close> False show ?thesis
          by (subst replaceFrom.simps) simp
      next
        case (Cons r rs)
        with "1.prems" have "lowRunes rs" "0 \<le> r" "r < 128"
          by (auto simp: lowRunes_def)
        with "1.IH"(1) [OF False \<open>rx_match rx t = []\<close> Cons] "1.prems"(2)
          \<open>rx_match rx t = []\<close> False Cons
        show ?thesis
          by (subst replaceFrom.simps) (simp add: EncodeRune_low)
      qed
    next
      case (Cons n ns)
      show ?thesis
      proof (cases "n = 0")
        case True
        show ?thesis
        proof (cases t)
          case Nil
          with Cons True False "1.prems" show ?thesis
            by (subst replaceFrom.simps) simp
        next
          case (Cons r rs)
          with "1.prems" have "lowRunes rs" "0 \<le> r" "r < 128"
            by (auto simp: lowRunes_def)
          with "1.IH"(2) [OF False \<open>rx_match rx t = n # ns\<close> True Cons] "1.prems"(2)
            \<open>rx_match rx t = n # ns\<close> False Cons True
          show ?thesis
            by (subst replaceFrom.simps) (simp add: EncodeRune_low)
        qed
      next
        case n: False
        with "1.IH"(3) [OF False Cons n d "1.prems"(2)] Cons False "1.prems"(2)
        show ?thesis
          by (subst replaceFrom.simps) simp
      qed
    qed
  qed
qed


lemma run_0: "run rx 0 rs = map_option (\<lambda>(i, n). \<lparr>mtext = rs, Index = i, Length = n\<rparr>) (rx_find rx rs 0)"
  by (simp add: run_def)

lemma run_Some:
  assumes "run rx k rs = Some m"
  shows "mtext m = rs" and "k \<le> Index m" and "Index m \<le> length rs"
    and "rx_match rx (drop (Index m) rs) \<noteq> []"
proof -
  from assms have k: "k \<le> length rs"
    by (auto simp: run_def split: if_splits)
  from assms obtain j n where f: "rx_find rx (drop k rs) k = Some (j, n)"
    and m: "m = \<lparr>mtext = rs, Index = j, Length = n\<rparr>"
    by (auto simp: run_def split: if_splits)
  from rx_find_Some [OF f] have j: "k \<le> j" "j \<le> k + length (drop k rs)"
    "rx_match rx (drop j rs) \<noteq> []"
    by auto
  with k m
  show "mtext m = rs" and "k \<le> Index m" and "Index m \<le> length rs"
    and "rx_match rx (drop (Index m) rs) \<noteq> []"
    by simp_all
qed

lemma Replace_ASCII:
  assumes "isASCII s" and "isASCII repl" and "k \<le> length s" and "count = 1 \<or> count = -1"
  shows "\<exists>r. Replace rx s repl k count = Inr r \<and> isASCII r"
proof (cases "run rx k (map byte s)")
  case None
  with assms show ?thesis
    by (auto simp: Replace_def FindStringMatchStartingAt_ASCII)
next
  case (Some m)
  from run_Some(1) [OF Some] have t: "mtext m = map byte s" .
  have low: "lowRunes (map byte s)"
    using assms(1) by (rule lowRunes_bytes)
  have "isASCII (EncodeRunes (take (Index m) (mtext m)))"
    unfolding t by (rule EncodeRunes_low [OF lowRunes_sub [OF set_take_subset low]])
  moreover have "isASCII (replaceFrom rx repl (drop (Index m) (mtext m)) count)"
    unfolding t
    by (rule replaceFrom_ASCII [OF lowRunes_sub [OF set_drop_subset low] assms(2)])
  ultimately show ?thesis
    using assms Some by (auto simp: Replace_def FindStringMatchStartingAt_ASCII)
qed

lemma Replace_first_length:
  assumes "isASCII s" and "FindStringMatch rx s = Some m" and "Index m = 0"
    and "list_all (\<lambda>w. w = length repl) (rx_widths rx)"
    and "Replace rx s repl 0 1 = Inr r"
  shows "length r = length s"
proof -
  let ?t = "map byte s"
  have low: "lowRunes ?t"
    using assms(1) by (rule lowRunes_bytes)
  from assms(2) have run: "run rx 0 ?t = Some m"
    by (simp add: FindStringMatch_def getRunes_ASCII [OF assms(1)])
  from FindStringMatch_Some [OF assms(2)] assms(3)
  have t: "mtext m = ?t" and ne: "rx_match rx ?t \<noteq> []"
    by (simp_all add: getRunes_ASCII [OF assms(1)])
  from ne obtain n ns where n: "rx_match rx ?t = n # ns"
    by (cases "rx_match rx ?t") auto
  then have "n \<in> set (rx_match rx ?t)" by simp
  from rx_match_widths [OF this] rx_match_le_length [OF this] assms(4)
  have w: "n = length repl" and le: "n \<le> length s"
    by (auto simp: list_all_iff)
  from assms(5) run assms(1,3) t
  have r: "r = replaceFrom rx repl ?t 1"
    by (auto simp: Replace_def FindStringMatchStartingAt_ASCII EncodeRunes_def)
  show ?thesis
  proof (cases "n = 0")
    case True
    then show ?thesis
      using r n w low
      by (cases s)
         (auto simp: replaceFrom.simps [of _ _ _ 1] replaceFrom.simps [of _ _ _ 0]
            EncodeRune_def lowRunes_def length_EncodeRunes_low)
  next
    case False
    have "lowRunes (drop n ?t)"
      by (rule lowRunes_sub [OF set_drop_subset low])
    then show ?thesis
      using r n w le False
      by (simp add: replaceFrom.simps [of _ _ _ 1] replaceFrom.simps [of _ _ _ 0]
          length_EncodeRunes_low)
  qed
qed

lemma StrReplace_ASCII:
  "isASCII s \<Longrightarrow> isASCII new \<Longrightarrow> isASCII (StrReplace s old new n)"
proof (induction s old new n rule: StrReplace.induct)
  case (1 s old new n)
  show ?case
  proof (cases "n = 0 \<or> old = []")
    case True
    with "1.prems" show ?thesis by (subst StrReplace.simps) simp
  next
    case False
    show ?thesis
    proof (cases s)
      case Nil
      with False show ?thesis by (subst StrReplace.simps) simp
    next
      case (Cons c cs)
      show ?thesis
      proof (cases "HasPrefix s old")
        case True
        from "1.IH"(1) [OF False Cons True isASCII_drop [OF "1.prems"(1)] "1.prems"(2)]
          False Cons True "1.prems"(2)
        show ?thesis by (subst StrReplace.simps) simp
      next
        case no: False
        from "1.prems"(1) Cons have "byte c < 128" "isASCII cs" by simp_all
        with "1.IH"(2) [OF False Cons no _ "1.prems"(2)] False Cons no
        show ?thesis by (subst StrReplace.simps) simp
      qed
    qed
  qed
qed

lemma initialisms_good: "list_all goodEntry initialisms"
  by code_simp


lemma FindNextMatch_Index:
  assumes "FindNextMatch rx m = Some m'"
  shows "Index m' \<le> length (mtext m)"
proof -
  from assms obtain k where "run rx k (mtext m) = Some m'"
    by (auto simp: FindNextMatch_def Let_def split: if_splits)
  from run_Some(3) [OF this] show ?thesis .
qed

lemma underscore_ASCII: "byte CHR ''_'' < 128"
  by (simp add: byte_def)

lemma applyInitialism_ASCII:
  assumes good: "goodEntry t" and s: "isASCII s"
  shows "\<exists>r. applyInitialism t s lowerFirst snake = Inr r \<and> isASCII r"
proof (cases "re t")
  case None
  from good have "isASCII (camel t)" "isASCII (upper t)" "isASCII (lower t)"
    by (simp_all add: goodEntry_def)
  then show ?thesis
    using None s
    by (auto simp: applyInitialism_def Let_def StrReplace_ASCII underscore_ASCII
        split: option.splits nat.splits)
next
  case (Some rx)
  from good Some have forms: "isASCII (upper t)" "isASCII (lower t)"
    and widths: "list_all (\<lambda>w. w = length (lower t)) (rx_widths rx)"
    by (simp_all add: goodEntry_def)
  define toReplace where
    "toReplace = (if snake then ''_'' @ lower t @ ''_'' else upper t)"
  have tr: "isASCII toReplace"
    using forms by (simp add: toReplace_def underscore_ASCII)
  show ?thesis
  proof (cases "FindStringMatch rx s")
    case None
    with Some s show ?thesis
      by (simp add: applyInitialism_def)
  next
    case m: (Some m)
    from FindStringMatch_Some [OF m] have mt: "mtext m = getRunes s"
      and idx: "Index m \<le> length s"
      by (simp_all add: getRunes_ASCII [OF s])
    show ?thesis
    proof (cases "lowerFirst \<and> Index m = 0")
      case False
      from Replace_ASCII [OF s tr idx, of "-1" rx] obtain r
        where "Replace rx s toReplace (Index m) (-1) = Inr r" "isASCII r"
        by auto
      with Some m False show ?thesis
        by (auto simp: applyInitialism_def toReplace_def)
    next
      case True
      from Replace_ASCII [OF s forms(2), of 0 1 rx] obtain r
        where r: "Replace rx s (lower t) 0 1 = Inr r" "isASCII r"
        by auto
      from True have "Index m = 0" by simp
      from Replace_first_length [OF s m this widths r(1)]
      have len: "length r = length s" .
      show ?thesis
      proof (cases "FindNextMatch rx m")
        case None
        with Some m True r show ?thesis
          by (simp add: applyInitialism_def)
      next
        case m': (Some m')
        from FindNextMatch_Index [OF m'] mt len
        have "Index m' \<le> length r"
          by (simp add: getRunes_ASCII [OF s])
        from Replace_ASCII [OF r(2) tr this, of "-1" rx] obtain r'
          where "Replace rx r toReplace (Index m') (-1) = Inr r'" "isASCII r'"
          by auto
        with Some m True r m' show ?thesis
          by (simp add: applyInitialism_def toReplace_def)
      qed
    qed
  qed
qed

lemma normalizeLoop_ASCII:
  "list_all goodEntry ts \<Longrightarrow> isASCII s \<Longrightarrow>
     \<exists>r. normalizeLoop ts s lowerFirst snake = Inr r \<and> isASCII r"
proof (induction ts arbitrary: s)
  case Nil
  then show ?case by simp
next
  case (Cons t ts)
  from Cons.prems have "goodEntry t" "list_all goodEntry ts" by simp_all
  from applyInitialism_ASCII [OF this(1) Cons.prems(2), of lowerFirst snake]
  obtain r where r: "applyInitialism t s lowerFirst snake = Inr r" "isASCII r"
    by auto
  from Cons.IH [OF \<open>list_all goodEntry ts\<close> r(2)] r(1) show ?case
    by simp
qed

lemma normalizeInitialisms_ASCII:
  assumes "isASCII s"
  shows "\<exists>r. normalizeInitialisms s lowerFirst snake = Inr r"
  using normalizeLoop_ASCII [OF initialisms_good assms, of lowerFirst snake]
  by (auto simp: normalizeInitialisms_def)

lemma camelLoop_ASCII: "isASCII (camelLoop s capNext first)"
proof (induction s capNext first rule: camelLoop.induct)
  case (1 capNext first)
  then show ?case by simp
next
  case (2 v vs capNext first)
  have up: "byte (toUpperByte v) < 128" if "isLow v"
    using that by (simp add: toUpperByte_def isLow_def byte_char_of)
  have lo: "byte (toLowerByte v) < 128" if "isCap v"
    using that by (simp add: toLowerByte_def isCap_def byte_char_of)
  have v: "byte v < 128" if "isCap v \<or> isLow v \<or> isNum v"
    using that by (auto simp: isCap_def isLow_def isNum_def)
  from 2 up lo v show ?case
    by (auto simp: Let_def)
qed

lemma ToCamel_ASCII: "isASCII (ToCamel s)"
  by (simp add: ToCamel_def toCamelInitCase_def Let_def camelLoop_ASCII)

lemma ToLowerCamel_ASCII: "isASCII (ToLowerCamel s)"
  by (simp add: ToLowerCamel_def toCamelInitCase_def Let_def camelLoop_ASCII)

lemma goName_Pascal_total: "\<exists>r. goName original False snake = Inr r"
  using normalizeInitialisms_ASCII [OF ToCamel_ASCII, of original False snake]
  by (auto simp: goName_def Let_def)

lemma goName_lowerFirst_total:
  assumes "isASCII original"
  shows "\<exists>r. goName original True snake = Inr r"
proof -
  from normalizeInitialisms_ASCII [OF assms, of True snake] obtain r1
    where r1: "normalizeInitialisms original True snake = Inr r1"
    by auto
  from normalizeInitialisms_ASCII [OF ToLowerCamel_ASCII, of r1 True snake] obtain r2
    where "normalizeInitialisms (ToLowerCamel r1) True snake = Inr r2"
    by auto
  with r1 show ?thesis
    by (simp add: goName_def Let_def)
qed

lemma New_total_on_ASCII:
  assumes "isASCII raw"
  shows "\<exists>n. New raw = Inr n"
  using goName_Pascal_total [of raw False] goName_Pascal_total [of raw True]
    goName_lowerFirst_total [OF assms, of False]
  by (auto simp: New_def)

section \<open>A name outside ASCII\<close>

text \<open>
  C9. \<open>New\<close> does not return for every string. The name of the four bytes C3 A9 49 64
  (an e with an acute accent, then \<open>Id\<close>) is three runes. With \<open>lowerFirst\<close> the normalizer runs on the raw name; the matcher of
  \<open>Id\<close> finds its match at rune index 1, and \<open>goName\<close> hands that rune index to \<open>Replace\<close>
  as \<open>startAt\<close>, which \<open>Replace\<close> reads as a byte offset. Byte 1 is inside the first rune,
  so \<open>Replace\<close> returns an error, \<open>normalizeInitialisms\<close> returns it, and \<open>goName\<close> panics.
\<close>

theorem New_panics_outside_ASCII:
  "getRunes [CHR 0xC3, CHR 0xA9, CHR ''I'', CHR ''d''] = [233, 73, 100]
   \<and> normalizeLoop (take 1 initialisms) [CHR 0xC3, CHR 0xA9, CHR ''I'', CHR ''d''] True False
       = Inr [CHR 0xC3, CHR 0xA9, CHR ''I'', CHR ''d'']
   \<and> FindStringMatch (the (re (initialisms ! 1))) [CHR 0xC3, CHR 0xA9, CHR ''I'', CHR ''d'']
       = Some \<lparr>mtext = [233, 73, 100], Index = 1, Length = 2\<rparr>
   \<and> getRunesAndStart [CHR 0xC3, CHR 0xA9, CHR ''I'', CHR ''d''] 1 = ([233, 73, 100], None)
   \<and> applyInitialism (initialisms ! 1) [CHR 0xC3, CHR 0xA9, CHR ''I'', CHR ''d''] True False
       = Inl StartAtNotAligned
   \<and> goName [CHR 0xC3, CHR 0xA9, CHR ''I'', CHR ''d''] False False = Inr ''ID''
   \<and> goName [CHR 0xC3, CHR 0xA9, CHR ''I'', CHR ''d''] True False = Inl StartAtNotAligned
   \<and> New [CHR 0xC3, CHR 0xA9, CHR ''I'', CHR ''d''] = Inl StartAtNotAligned"
proof -
  let ?s = "[CHR 0xC3, CHR 0xA9, CHR ''I'', CHR ''d'']"
  have "getRunes ?s = [233, 73, 100]"
    by code_simp
  moreover have "normalizeLoop (take 1 initialisms) ?s True False = Inr ?s"
    by code_simp
  moreover have "FindStringMatch (the (re (initialisms ! 1))) ?s
      = Some \<lparr>mtext = [233, 73, 100], Index = 1, Length = 2\<rparr>"
    by code_simp
  moreover have "getRunesAndStart ?s 1 = ([233, 73, 100], None)"
    by code_simp
  moreover have "applyInitialism (initialisms ! 1) ?s True False = Inl StartAtNotAligned"
    by code_simp
  moreover have c: "goName ?s False False = Inr ''ID''"
    by code_simp
  moreover have l: "goName ?s True False = Inl StartAtNotAligned"
    by code_simp
  moreover have "New ?s = Inl StartAtNotAligned"
    by (simp add: New_def c l)
  ultimately show ?thesis
    by simp
qed

end
